theory Spec2Isabelle
  imports Complex_Main "HOL-Library.Multiset" "HOL-Library.Option_ord"
    "HOL-Library.Product_Lexorder"
begin

section \<open>Numbers\<close>

text \<open>
  A JavaScript Number is modelled as \<open>rat option\<close>: \<open>Some q\<close> is the finite value \<open>q\<close>
  and \<open>None\<close> is \<open>NaN\<close>, which the code can only get from \<open>0 / 0\<close>. The code computes in
  IEEE doubles; the model computes the exact values, which the doubles approximate with
  a relative error of about \<open>10\<^sup>-\<^sup>1\<^sup>6\<close> in each operation. The two can differ in the sixth
  decimal of a rounded result only where the exact value lies that close to a rounding
  boundary of \<open>toFixed(6)\<close>; what is proved about rounded results below does not depend
  on the side that is taken at such a boundary.
\<close>

type_synonym number = "rat option"

text \<open>
  \<open>parseFloat(x.toFixed(6))\<close> on a finite Number below \<open>10\<^sup>2\<^sup>1\<close>: the nearest multiple of
  \<open>10\<^sup>-\<^sup>6\<close>, the larger one of two equally near ones; a negative \<open>x\<close> is rounded as \<open>-x\<close>
  and negated.
\<close>

definition toFixed6 :: "rat \<Rightarrow> rat" where
  "toFixed6 x =
     (if x < 0 then - (of_int \<lfloor>- x * 1000000 + 1 / 2\<rfloor> / 1000000)
      else of_int \<lfloor>x * 1000000 + 1 / 2\<rfloor> / 1000000)"

text \<open>\<open>parseFloat(x.toFixed(6))\<close> on any Number: \<open>NaN\<close> stays \<open>NaN\<close>.\<close>

definition round6 :: "number \<Rightarrow> number" where
  "round6 x = map_option toFixed6 x"

section \<open>Data\<close>

text \<open>A row of a parsed CSV file: \<open>{ row_id, label }\<close>.\<close>

record row =
  row_id :: string
  label :: string

text \<open>A comparison triple \<open>{ row_id, predicted, actual, match }\<close>.\<close>

record comparison =
  cmp_row_id :: string
  predicted :: string
  actual :: string
  match :: bool

text \<open>The object \<open>{ accuracy, precision, recall, f1, matches }\<close> of \<open>computeMetrics\<close>.\<close>

record metrics_rec =
  accuracy :: number
  precision :: number
  recall :: number
  f1 :: number
  matches :: nat

text \<open>
  The row counts that a comparison result and a stored submission share. The record
  extends \<open>metrics_rec\<close>: the nested \<open>metrics\<close> object of the source is flattened, so
  that \<open>comparisonResult.metrics.accuracy\<close> and \<open>submission.accuracy\<close> are both the
  field \<open>accuracy\<close>.
\<close>

record summary_rec = metrics_rec +
  rowsInCanonical :: nat
  rowsInSubmission :: nat
  rowsCompared :: nat
  missingRows :: nat
  extraRows :: nat

text \<open>The object returned by \<open>compareCSVData\<close>.\<close>

record comparison_result = summary_rec +
  comparisons :: "comparison list"
  missingRowIds :: "string list"
  extraRowIds :: "string list"

text \<open>
  A document of the \<open>Submission\<close> collection (\<open>models/Submission.js\<close>). The generated
  \<open>_id\<close>, the \<open>uploadedAt\<close> timestamp and the constant \<open>status\<close> are left out.
\<close>

record submission = summary_rec +
  userId :: string
  filename :: string
  rowsTotal :: nat
  fileDataPreview :: "comparison list"
  attemptNumber :: nat

section \<open>\<open>utils/metrics.js\<close>: \<open>computeMetrics\<close>\<close>

text \<open>\<open>Set.add\<close> on a set kept in insertion order.\<close>

definition set_add :: "'a list \<Rightarrow> 'a \<Rightarrow> 'a list" where
  "set_add s x = (if x \<in> set s then s else s @ [x])"

text \<open>\<open>allLabels\<close>: every predicted and actual label, in order of first appearance.\<close>

definition allLabels :: "comparison list \<Rightarrow> string list" where
  "allLabels predictions =
     fold (\<lambda>pred s. set_add (set_add s (predicted pred)) (actual pred)) predictions []"

definition tp :: "comparison list \<Rightarrow> string \<Rightarrow> nat" where
  "tp predictions l =
     length (filter (\<lambda>pred. predicted pred = l \<and> actual pred = l) predictions)"

definition fp :: "comparison list \<Rightarrow> string \<Rightarrow> nat" where
  "fp predictions l =
     length (filter (\<lambda>pred. predicted pred = l \<and> actual pred \<noteq> l) predictions)"

definition fn :: "comparison list \<Rightarrow> string \<Rightarrow> nat" where
  "fn predictions l =
     length (filter (\<lambda>pred. predicted pred \<noteq> l \<and> actual pred = l) predictions)"

text \<open>Precision and recall of one class; the guard keeps the division defined.\<close>

definition class_precision :: "comparison list \<Rightarrow> string \<Rightarrow> rat" where
  "class_precision predictions l =
     (if tp predictions l + fp predictions l > 0
      then of_nat (tp predictions l) / of_nat (tp predictions l + fp predictions l)
      else 0)"

definition class_recall :: "comparison list \<Rightarrow> string \<Rightarrow> rat" where
  "class_recall predictions l =
     (if tp predictions l + fn predictions l > 0
      then of_nat (tp predictions l) / of_nat (tp predictions l + fn predictions l)
      else 0)"

text \<open>
  \<open>xs.reduce((sum, p) => sum + p, 0) / xs.length\<close>; for an empty array this is \<open>0 / 0\<close>.
\<close>

definition average :: "rat list \<Rightarrow> number" where
  "average xs =
     (if length xs = 0 then None else Some (foldl (+) 0 xs / of_nat (length xs)))"

definition avgPrecision :: "comparison list \<Rightarrow> number" where
  "avgPrecision predictions = average (map (class_precision predictions) (allLabels predictions))"

definition avgRecall :: "comparison list \<Rightarrow> number" where
  "avgRecall predictions = average (map (class_recall predictions) (allLabels predictions))"

text \<open>
  The F1 score before rounding. A comparison with \<open>NaN\<close> is false, so a sum with \<open>NaN\<close>
  takes the \<open>0\<close> branch; in the other branch the divisor is positive.
\<close>

definition f1_raw :: "number \<Rightarrow> number \<Rightarrow> number" where
  "f1_raw p r =
     (case (p, r) of
        (Some p', Some r') \<Rightarrow>
          if p' + r' > 0 then Some (2 * (p' * r') / (p' + r')) else Some 0
      | _ \<Rightarrow> Some 0)"

definition count_matches :: "comparison list \<Rightarrow> nat" where
  "count_matches predictions = length (filter (\<lambda>pred. predicted pred = actual pred) predictions)"

text \<open>
  \<open>computeMetrics(predictions)\<close>. The argument is \<open>None\<close> when the caller passes
  \<open>null\<close> or \<open>undefined\<close>. Where \<open>matches / total\<close> is computed, \<open>total\<close> is not zero.
\<close>

definition computeMetrics :: "comparison list option \<Rightarrow> metrics_rec" where
  "computeMetrics arg =
     (case arg of
        None \<Rightarrow> \<lparr>accuracy = Some 0, precision = Some 0, recall = Some 0, f1 = Some 0, matches = 0\<rparr>
      | Some predictions \<Rightarrow>
          if length predictions = 0
          then \<lparr>accuracy = Some 0, precision = Some 0, recall = Some 0, f1 = Some 0, matches = 0\<rparr>
          else
            \<lparr>accuracy = round6 (Some (of_nat (count_matches predictions)
                                           / of_nat (length predictions))),
             precision = round6 (avgPrecision predictions),
             recall = round6 (avgRecall predictions),
             f1 = round6 (f1_raw (avgPrecision predictions) (avgRecall predictions)),
             matches = count_matches predictions\<rparr>)"

section \<open>\<open>utils/metrics.js\<close>: \<open>compareCSVData\<close>\<close>

text \<open>A \<open>Map\<close> filled by \<open>rows.forEach(row => map.set(row.row_id, row.label))\<close>.\<close>

definition build_map :: "row list \<Rightarrow> (string \<rightharpoonup> string)" where
  "build_map rows = fold (\<lambda>r m. m(row_id r \<mapsto> label r)) rows Map.empty"

text \<open>
  The loop over the canonical rows: a row whose id the submission has yields a
  comparison triple, any other row yields a missing id.
\<close>

fun join_rows :: "(string \<rightharpoonup> string) \<Rightarrow> row list \<Rightarrow> comparison list \<times> string list" where
  "join_rows userMap [] = ([], [])"
| "join_rows userMap (answerRow # rest) =
     (case join_rows userMap rest of
        (cs, missing) \<Rightarrow>
          (case userMap (row_id answerRow) of
             Some p \<Rightarrow>
               (\<lparr>cmp_row_id = row_id answerRow, predicted = p, actual = label answerRow,
                 match = (p = label answerRow)\<rparr> # cs, missing)
           | None \<Rightarrow> (cs, row_id answerRow # missing)))"

definition compareCSVData :: "row list \<Rightarrow> row list \<Rightarrow> comparison_result" where
  "compareCSVData userCSVData answerCSVData =
     (let answerMap = build_map answerCSVData;
          userMap = build_map userCSVData;
          joined = join_rows userMap answerCSVData;
          cs = fst joined;
          missingInUser = snd joined;
          extraInUser =
            map row_id (filter (\<lambda>userRow. answerMap (row_id userRow) = None) userCSVData);
          m = computeMetrics (Some cs)
      in \<lparr>accuracy = accuracy m, precision = precision m, recall = recall m, f1 = f1 m,
          matches = matches m,
          rowsInCanonical = length answerCSVData,
          rowsInSubmission = length userCSVData,
          rowsCompared = length cs,
          missingRows = length missingInUser,
          extraRows = length extraInUser,
          comparisons = cs,
          missingRowIds = take 10 missingInUser,
          extraRowIds = take 10 extraInUser\<rparr>)"

section \<open>\<open>routes/submissions.js\<close>: \<open>POST /upload\<close>\<close>

text \<open>
  The uploaded file as the handler sees it after \<open>Papa.parse\<close>: the number of parse
  errors, the header fields and the data rows (\<open>String(row.row_id)\<close> and
  \<open>String(row.label)\<close>, before trimming).
\<close>

record upload_file =
  originalname :: string
  parse_errors :: nat
  meta_fields :: "string list"
  data :: "row list"

text \<open>
  The user object that the login route stores in the session, with the fields that the
  handler reads.
\<close>

record user =
  user_id :: string
  user_uploadLimit :: "int option"

text \<open>
  The request as the handler reads it: \<open>req.file\<close> when there is one, \<open>req.session.user\<close>,
  and \<open>req.user\<close>, which is \<open>None\<close> when the request has no such property.
\<close>

record request =
  req_file :: "upload_file option"
  session_user :: user
  req_user :: "user option"

text \<open>
  The request as it reaches the router: the uploaded file when there is one, and the
  user of the session when there is one.
\<close>

record http_request =
  http_file :: "upload_file option"
  http_session_user :: "user option"

text \<open>
  The database: the \<open>AnswerCSV\<close> document's rows when there is one, the value of the
  \<open>Config\<close> document with key \<open>defaultUploadLimit\<close> when there is one, and the
  \<open>Submission\<close> collection.
\<close>

record db =
  answerCSV :: "row list option"
  defaultUploadLimit :: "int option"
  submissions :: "submission list"

text \<open>
  The error responses: \<open>401\<close> without a session user, \<open>400\<close> for a missing file, a
  missing answer CSV, a parse error, missing columns and an empty file, \<open>403\<close> with the
  used and the allowed count when the upload limit is reached, \<open>500\<close> for an exception
  caught by the handler.
\<close>

datatype error =
    AuthenticationRequired
  | NoFileUploaded
  | NoAnswerCSV
  | UploadLimitReached nat int
  | CSVParsingError
  | MissingColumns
  | EmptyCSV
  | InternalError

text \<open>What a run of the handler did besides reading the database.\<close>

datatype effect = Unlink | ParseCSV | Compare | Save

text \<open>
  \<open>String.prototype.trim\<close>. A \<open>string\<close> is the UTF-8 encoding of the JavaScript string,
  as in the uploaded file, so a code point above \<open>U+007F\<close> is several characters. The
  list has the encodings of the white space and line terminator code points of
  ECMAScript: \<open>U+0009\<close> to \<open>U+000D\<close>, \<open>U+0020\<close>, \<open>U+00A0\<close>, \<open>U+1680\<close>, \<open>U+2000\<close> to
  \<open>U+200A\<close>, \<open>U+2028\<close>, \<open>U+2029\<close>, \<open>U+202F\<close>, \<open>U+205F\<close>, \<open>U+3000\<close> and \<open>U+FEFF\<close>.
\<close>

definition white_space :: "string list" where
  "white_space =
    [[CHR 0x09],
     [CHR 0x0A],
     [CHR 0x0B],
     [CHR 0x0C],
     [CHR 0x0D],
     [CHR 0x20],
     [CHR 0xC2, CHR 0xA0],
     [CHR 0xE1, CHR 0x9A, CHR 0x80],
     [CHR 0xE2, CHR 0x80, CHR 0x80],
     [CHR 0xE2, CHR 0x80, CHR 0x81],
     [CHR 0xE2, CHR 0x80, CHR 0x82],
     [CHR 0xE2, CHR 0x80, CHR 0x83],
     [CHR 0xE2, CHR 0x80, CHR 0x84],
     [CHR 0xE2, CHR 0x80, CHR 0x85],
     [CHR 0xE2, CHR 0x80, CHR 0x86],
     [CHR 0xE2, CHR 0x80, CHR 0x87],
     [CHR 0xE2, CHR 0x80, CHR 0x88],
     [CHR 0xE2, CHR 0x80, CHR 0x89],
     [CHR 0xE2, CHR 0x80, CHR 0x8A],
     [CHR 0xE2, CHR 0x80, CHR 0xA8],
     [CHR 0xE2, CHR 0x80, CHR 0xA9],
     [CHR 0xE2, CHR 0x80, CHR 0xAF],
     [CHR 0xE2, CHR 0x81, CHR 0x9F],
     [CHR 0xE3, CHR 0x80, CHR 0x80],
     [CHR 0xEF, CHR 0xBB, CHR 0xBF]]"

text \<open>Removing every leading occurrence of one of the given non-empty strings.\<close>

function strip :: "string list \<Rightarrow> string \<Rightarrow> string" where
  "strip ws s =
     (case List.find (\<lambda>w. w \<noteq> [] \<and> take (length w) s = w) ws of
        None \<Rightarrow> s
      | Some w \<Rightarrow> strip ws (drop (length w) s))"
  by pat_completeness auto
termination
proof (relation "measure (\<lambda>(ws, s). length s)")
  show "wf (measure (\<lambda>(ws, s). length s))" by simp
next
  fix ws :: "string list" and s w :: string
  assume "List.find (\<lambda>w. w \<noteq> [] \<and> take (length w) s = w) ws = Some w"
  then have w: "w \<noteq> []" "take (length w) s = w"
    by (auto simp: find_Some_iff)
  then have "s \<noteq> []" by auto
  then have "length (drop (length w) s) < length s"
    using w(1) by simp
  then show "((ws, drop (length w) s), (ws, s)) \<in> measure (\<lambda>(ws, s). length s)"
    by simp
qed

declare strip.simps [simp del]

definition trim :: "string \<Rightarrow> string" where
  "trim s = rev (strip (map rev white_space) (rev (strip white_space s)))"

text \<open>\<open>Submission.countDocuments({ userId })\<close>.\<close>

definition countDocuments :: "string \<Rightarrow> db \<Rightarrow> nat" where
  "countDocuments u d = length (filter (\<lambda>s. userId s = u) (submissions d))"

text \<open>
  The upload limit of a user object: its own \<open>uploadLimit\<close> when that is set, else the
  configured default, else 15.
\<close>

definition uploadLimit :: "user \<Rightarrow> db \<Rightarrow> int" where
  "uploadLimit u d =
     (case user_uploadLimit u of
        Some l \<Rightarrow> l
      | None \<Rightarrow> (case defaultUploadLimit d of Some v \<Rightarrow> v | None \<Rightarrow> 15))"

text \<open>The preview: up to 15 mismatches, then up to 5 matches, cut at 20 entries.\<close>

definition preview :: "comparison list \<Rightarrow> comparison list" where
  "preview cs =
     take 20 (take 15 (filter (\<lambda>c. \<not> match c) cs) @ take 5 (filter (\<lambda>c. match c) cs))"

text \<open>
  Steps 1 to 8 of the handler, up to the construction of the \<open>Submission\<close> document: they
  read the database and do not write it. The user id is read from \<open>req.session.user\<close>
  and the upload limit from \<open>req.user\<close>: when the request has no \<open>user\<close> property,
  \<open>req.user.uploadLimit\<close> throws, and the \<open>catch\<close> block removes the file and answers
  with status 500.
\<close>

definition upload_prepare :: "request \<Rightarrow> db \<Rightarrow> (error + submission) \<times> effect list" where
  "upload_prepare req d =
     (case req_file req of
        None \<Rightarrow> (Inl NoFileUploaded, [])
      | Some f \<Rightarrow>
          (case answerCSV d of
             None \<Rightarrow> (Inl NoAnswerCSV, [Unlink])
           | Some answer \<Rightarrow>
               (let userSubmissionCount = countDocuments (user_id (session_user req)) d
                in case req_user req of
                     None \<Rightarrow> (Inl InternalError, [Unlink])
                   | Some u \<Rightarrow>
               (let limit = uploadLimit u d
                in if int userSubmissionCount \<ge> limit
                   then (Inl (UploadLimitReached userSubmissionCount limit), [Unlink])
                   else if parse_errors f > 0
                   then (Inl CSVParsingError, [ParseCSV, Unlink])
                   else if \<not> (''row_id'' \<in> set (meta_fields f) \<and> ''label'' \<in> set (meta_fields f))
                   then (Inl MissingColumns, [ParseCSV, Unlink])
                   else
                     (let userCSVData =
                            map (\<lambda>r. \<lparr>row_id = trim (row_id r), label = trim (label r)\<rparr>) (data f)
                      in if length userCSVData = 0
                         then (Inl EmptyCSV, [ParseCSV, Unlink])
                         else
                           (let comparisonResult = compareCSVData userCSVData answer;
                                attempt = userSubmissionCount + 1
                            in (Inr \<lparr>accuracy = accuracy comparisonResult,
                                     precision = precision comparisonResult,
                                     recall = recall comparisonResult,
                                     f1 = f1 comparisonResult,
                                     matches = matches comparisonResult,
                                     rowsInCanonical = rowsInCanonical comparisonResult,
                                     rowsInSubmission = rowsInSubmission comparisonResult,
                                     rowsCompared = rowsCompared comparisonResult,
                                     missingRows = missingRows comparisonResult,
                                     extraRows = extraRows comparisonResult,
                                     userId = user_id (session_user req),
                                     filename = originalname f,
                                     rowsTotal = rowsCompared comparisonResult,
                                     fileDataPreview = preview (comparisons comparisonResult),
                                     attemptNumber = attempt\<rparr>,
                                [ParseCSV, Compare])))))))"

text \<open>\<open>submission.save()\<close>.\<close>

definition save :: "submission \<Rightarrow> db \<Rightarrow> db" where
  "save s d = d\<lparr>submissions := submissions d @ [s]\<rparr>"

text \<open>
  One run of the handler with no other request in between: the response, the database
  afterwards and what was done.
\<close>

definition upload :: "request \<Rightarrow> db \<Rightarrow> (error + submission) \<times> db \<times> effect list" where
  "upload req d =
     (case upload_prepare req d of
        (Inl e, t) \<Rightarrow> (Inl e, d, t)
      | (Inr s, t) \<Rightarrow> (Inr s, save s d, t @ [Save, Unlink]))"

subsection \<open>The router\<close>

text \<open>
  \<open>middleware/auth.js\<close>: \<open>requireAuth\<close> answers with status 401 when the session has no
  user and calls the next handler otherwise. It assigns nothing to the request, and no
  other code of the repository assigns \<open>req.user\<close>: the handler gets a request without
  that property.
\<close>

definition requireAuth :: "http_request \<Rightarrow> error + request" where
  "requireAuth r =
     (case http_session_user r of
        None \<Rightarrow> Inl AuthenticationRequired
      | Some u \<Rightarrow> Inr \<lparr>req_file = http_file r, session_user = u, req_user = None\<rparr>)"

text \<open>\<open>router.use(requireAuth)\<close> followed by \<open>router.post('/upload', ...)\<close>.\<close>

definition post_upload :: "http_request \<Rightarrow> db \<Rightarrow> (error + submission) \<times> db \<times> effect list" where
  "post_upload r d =
     (case requireAuth r of
        Inl e \<Rightarrow> (Inl e, d, [])
      | Inr req \<Rightarrow> upload req d)"

subsection \<open>Requests in flight\<close>

text \<open>
  The handler is an \<open>async\<close> function: between its reads of the database and
  \<open>await submission.save()\<close> the event loop may run another request. A request in flight
  is waiting to start, holds a document built from what it has read, or has answered.
  The reads of one request are one step: the only thing that another upload changes is
  the \<open>Submission\<close> collection, which the request reads once, with \<open>countDocuments\<close>.
\<close>

datatype task = Waiting request | Built submission | Answered

text \<open>One step of one of the requests in flight.\<close>

inductive step :: "db \<times> task list \<Rightarrow> db \<times> task list \<Rightarrow> bool" where
  read_ok:
    "i < length ts \<Longrightarrow> ts ! i = Waiting req \<Longrightarrow> fst (upload_prepare req d) = Inr s
       \<Longrightarrow> step (d, ts) (d, ts[i := Built s])"
| read_error:
    "i < length ts \<Longrightarrow> ts ! i = Waiting req \<Longrightarrow> fst (upload_prepare req d) = Inl e
       \<Longrightarrow> step (d, ts) (d, ts[i := Answered])"
| write_doc:
    "i < length ts \<Longrightarrow> ts ! i = Built s
       \<Longrightarrow> step (d, ts) (save s d, ts[i := Answered])"

code_pred step .

section \<open>\<open>routes/leaderboard.js\<close>: \<open>GET /\<close>\<close>

text \<open>
  A \<open>$sort\<close> stage with a descending key. MongoDB fixes the order of the output only as
  far as the keys differ and leaves the order of documents with equal keys open, so the
  stage is a relation between its input and its possible outputs: an output has the
  documents of the input and its keys do not increase. The order of the input, and so
  the order of the collection, plays no part.
\<close>

definition sort_stage :: "('a \<Rightarrow> 'k::linorder) \<Rightarrow> 'a list \<Rightarrow> 'a list \<Rightarrow> bool" where
  "sort_stage k xs ys \<longleftrightarrow> mset ys = mset xs \<and> sorted_wrt (\<lambda>a b. k b \<le> k a) ys"

text \<open>One output of the stage: insertion sort.\<close>

fun insert_desc :: "('a \<Rightarrow> 'k::linorder) \<Rightarrow> 'a \<Rightarrow> 'a list \<Rightarrow> 'a list" where
  "insert_desc k x [] = [x]"
| "insert_desc k x (y # ys) = (if k x < k y then y # insert_desc k x ys else x # y # ys)"

definition sort_desc :: "('a \<Rightarrow> 'k::linorder) \<Rightarrow> 'a list \<Rightarrow> 'a list" where
  "sort_desc k xs = foldr (insert_desc k) xs []"

text \<open>
  The sort key \<open>{ accuracy: -1, f1: -1 }\<close>: pairs are compared lexicographically, and
  \<open>NaN\<close> sorts below every number.
\<close>

definition score_key :: "submission \<Rightarrow> number \<times> number" where
  "score_key s = (accuracy s, f1 s)"

text \<open>An output document of the \<open>$group\<close> stage.\<close>

record group_entry =
  group_id :: string
  bestAccuracy :: number
  bestF1 :: number
  bestPrecision :: number
  bestRecall :: number
  group_attemptNumber :: nat

definition group_key :: "group_entry \<Rightarrow> number \<times> number" where
  "group_key e = (bestAccuracy e, bestF1 e)"

text \<open>
  The \<open>$group\<close> stage with \<open>$first\<close> accumulators: one document for each \<open>userId\<close>, made
  from the first incoming document of that user. \<open>group_first\<close> lists the groups in the
  order of their first documents; MongoDB leaves the order of the groups open.
\<close>

fun group_first :: "submission list \<Rightarrow> group_entry list" where
  "group_first [] = []"
| "group_first (s # rest) =
     \<lparr>group_id = userId s, bestAccuracy = accuracy s, bestF1 = f1 s,
      bestPrecision = precision s, bestRecall = recall s,
      group_attemptNumber = attemptNumber s\<rparr>
     # group_first (filter (\<lambda>t. userId t \<noteq> userId s) rest)"

definition group_stage :: "submission list \<Rightarrow> group_entry list \<Rightarrow> bool" where
  "group_stage xs gs \<longleftrightarrow> mset gs = mset (group_first xs)"

text \<open>
  The pipeline \<open>$sort\<close>, \<open>$group\<close>, \<open>$sort\<close>, \<open>$limit\<close>: the results that it can have on a
  collection.
\<close>

definition aggregate :: "nat \<Rightarrow> submission list \<Rightarrow> group_entry list \<Rightarrow> bool" where
  "aggregate limit subs result \<longleftrightarrow>
     (\<exists>first_sorted groups ranked.
        sort_stage score_key subs first_sorted \<and> group_stage first_sorted groups
        \<and> sort_stage group_key groups ranked \<and> result = take limit ranked)"

text \<open>An entry of the \<open>leaderboard\<close> array of the response, without the team name, the e-mail
  address and the submission date.\<close>

record leaderboard_entry =
  rank :: nat
  lb_userId :: string
  lb_accuracy :: number
  lb_f1 :: number
  lb_precision :: number
  lb_recall :: number
  lb_attemptNumber :: nat

text \<open>\<open>leaderboardData.map((entry, index) => ...)\<close>.\<close>

definition with_rank :: "group_entry list \<Rightarrow> leaderboard_entry list" where
  "with_rank es =
     map (\<lambda>(entry, index).
            \<lparr>rank = index + 1, lb_userId = group_id entry, lb_accuracy = bestAccuracy entry,
             lb_f1 = bestF1 entry, lb_precision = bestPrecision entry,
             lb_recall = bestRecall entry, lb_attemptNumber = group_attemptNumber entry\<rparr>)
         (zip es [0 ..< length es])"

text \<open>
  \<open>parseInt(req.query.limit) || 50\<close>, where the argument is \<open>parseInt(req.query.limit)\<close>,
  \<open>None\<close> when that is \<open>NaN\<close>: \<open>|| 50\<close> replaces \<open>NaN\<close> and \<open>0\<close>.
\<close>

definition query_limit :: "int option \<Rightarrow> int" where
  "query_limit q = (case q of None \<Rightarrow> 50 | Some n \<Rightarrow> if n = 0 then 50 else n)"

text \<open>
  The handler: the answers that it can give. The \<open>$limit\<close> stage rejects a limit that is
  not positive, which the handler answers with status 500. The \<open>userRank\<close> of the
  response, which repeats the pipeline without the limit, is left out.
\<close>

definition leaderboard :: "int option \<Rightarrow> db \<Rightarrow> (error + leaderboard_entry list) \<Rightarrow> bool" where
  "leaderboard q d answer \<longleftrightarrow>
     (if query_limit q \<le> 0 then answer = Inl InternalError
      else \<exists>result. aggregate (nat (query_limit q)) (submissions d) result
                    \<and> answer = Inr (with_rank result))"

section \<open>Example data\<close>

text \<open>
  A database with a canonical answer of one row and no submissions; user \<open>u1\<close>, whose
  own upload limit is not set; a file with the canonical row and one with a row that
  the canonical answer does not have; and the document that the handler builds for the
  first file as attempt \<open>n\<close>.
\<close>

definition example_db :: db where
  "example_db =
     \<lparr>answerCSV = Some [\<lparr>row_id = ''1'', label = ''A''\<rparr>], defaultUploadLimit = None,
      submissions = []\<rparr>"

definition example_user :: user where
  "example_user = \<lparr>user_id = ''u1'', user_uploadLimit = None\<rparr>"

definition example_file :: upload_file where
  "example_file =
     \<lparr>originalname = ''s.csv'', parse_errors = 0, meta_fields = [''row_id'', ''label''],
      data = [\<lparr>row_id = ''1'', label = ''A''\<rparr>]\<rparr>"

definition other_file :: upload_file where
  "other_file =
     \<lparr>originalname = ''s.csv'', parse_errors = 0, meta_fields = [''row_id'', ''label''],
      data = [\<lparr>row_id = ''2'', label = ''A''\<rparr>]\<rparr>"

definition example_submission :: "nat \<Rightarrow> submission" where
  "example_submission n =
     \<lparr>accuracy = Some 1, precision = Some 1, recall = Some 1, f1 = Some 1,
      matches = 1, rowsInCanonical = 1, rowsInSubmission = 1,
      rowsCompared = 1, missingRows = 0, extraRows = 0, userId = ''u1'',
      filename = ''s.csv'', rowsTotal = 1,
      fileDataPreview =
        [\<lparr>cmp_row_id = ''1'', predicted = ''A'', actual = ''A'', match = True\<rparr>],
      attemptNumber = n\<rparr>"

text \<open>A stored submission of user \<open>u\<close> with accuracy \<open>a\<close>, f1 \<open>f\<close> and attempt number \<open>n\<close>.\<close>

definition scored_submission :: "string \<Rightarrow> rat \<Rightarrow> rat \<Rightarrow> nat \<Rightarrow> submission" where
  "scored_submission u a f n =
     \<lparr>accuracy = Some a, precision = Some f, recall = Some f, f1 = Some f,
      matches = 0, rowsInCanonical = 10, rowsInSubmission = 10,
      rowsCompared = 10, missingRows = 0, extraRows = 0, userId = u,
      filename = ''s.csv'', rowsTotal = 10, fileDataPreview = [],
      attemptNumber = n\<rparr>"

text \<open>The entry that the leaderboard shows for such a submission at rank \<open>k\<close>.\<close>

definition scored_entry :: "nat \<Rightarrow> string \<Rightarrow> rat \<Rightarrow> rat \<Rightarrow> nat \<Rightarrow> leaderboard_entry" where
  "scored_entry k u a f n =
     \<lparr>rank = k, lb_userId = u, lb_accuracy = Some a, lb_f1 = Some f,
      lb_precision = Some f, lb_recall = Some f, lb_attemptNumber = n\<rparr>"

section \<open>Properties of \<open>computeMetrics\<close>\<close>

text \<open>
  C10. \<open>computeMetrics\<close> is defined on an empty and on an absent sequence of comparison
  triples: it returns the fixed result with accuracy, precision, recall and f1 equal to
  the number \<open>0\<close> (not \<open>NaN\<close>) and no matches.
\<close>

theorem computeMetrics_empty:
  "computeMetrics None =
     \<lparr>accuracy = Some 0, precision = Some 0, recall = Some 0, f1 = Some 0, matches = 0\<rparr>
   \<and> computeMetrics (Some []) =
     \<lparr>accuracy = Some 0, precision = Some 0, recall = Some 0, f1 = Some 0, matches = 0\<rparr>"
  by (simp add: computeMetrics_def)

subsection \<open>Rounding to six decimals\<close>

lemma toFixed6_nonneg_eq:
  "0 \<le> x \<Longrightarrow> toFixed6 x = of_int \<lfloor>x * 1000000 + 1 / 2\<rfloor> / 1000000"
  by (simp add: toFixed6_def)

lemma toFixed6_eq_iff:
  assumes "0 \<le> x"
  shows "toFixed6 x = of_int k / 1000000 \<longleftrightarrow>
         (of_int k - 1 / 2) / 1000000 \<le> x \<and> x < (of_int k + 1 / 2) / 1000000"
proof -
  have "toFixed6 x = of_int k / 1000000 \<longleftrightarrow> \<lfloor>x * 1000000 + 1 / 2\<rfloor> = k"
    using assms by (simp add: toFixed6_nonneg_eq)
  also have "\<dots> \<longleftrightarrow> of_int k \<le> x * 1000000 + 1 / 2 \<and> x * 1000000 + 1 / 2 < of_int k + 1"
    by (rule floor_eq_iff)
  also have "\<dots> \<longleftrightarrow> (of_int k - 1 / 2) / 1000000 \<le> x \<and> x < (of_int k + 1 / 2) / 1000000"
    by (simp add: field_simps)
  finally show ?thesis .
qed

lemma toFixed6_eq_1_iff:
  "0 \<le> x \<Longrightarrow> toFixed6 x = 1 \<longleftrightarrow> 1999999 / 2000000 \<le> x \<and> x < 2000001 / 2000000"
  using toFixed6_eq_iff [of x 1000000] by simp

lemma toFixed6_eq_0_iff:
  "0 \<le> x \<Longrightarrow> toFixed6 x = 0 \<longleftrightarrow> x < 1 / 2000000"
  using toFixed6_eq_iff [of x 0] by simp

lemma toFixed6_range:
  assumes "0 \<le> x" "x \<le> 1"
  shows "0 \<le> toFixed6 x \<and> toFixed6 x \<le> 1"
proof -
  have "0 \<le> x * 1000000 + 1 / 2" using assms by simp
  then have lo: "0 \<le> \<lfloor>x * 1000000 + 1 / 2\<rfloor>" by simp
  have "x * 1000000 + 1 / 2 < 1000001" using assms by simp
  then have "\<lfloor>x * 1000000 + 1 / 2\<rfloor> < 1000001" by (simp add: floor_less_iff)
  then have hi: "\<lfloor>x * 1000000 + 1 / 2\<rfloor> \<le> 1000000" by simp
  have "(of_int \<lfloor>x * 1000000 + 1 / 2\<rfloor> :: rat) \<le> of_int 1000000"
    using hi by (simp only: of_int_le_iff)
  then show ?thesis using lo assms by (simp add: toFixed6_nonneg_eq)
qed

subsection \<open>Accuracy\<close>

lemma accuracy_computeMetrics:
  "predictions \<noteq> [] \<Longrightarrow>
   accuracy (computeMetrics (Some predictions)) =
     Some (toFixed6 (of_nat (count_matches predictions) / of_nat (length predictions)))"
  by (simp add: computeMetrics_def round6_def)

lemma count_matches_le: "count_matches ps \<le> length ps"
  by (simp add: count_matches_def)

lemma length_filter_eq_length: "length (filter P xs) = length xs \<longleftrightarrow> (\<forall>x\<in>set xs. P x)"
proof (induction xs)
  case Nil
  show ?case by simp
next
  case (Cons a xs)
  have "length (filter P xs) \<noteq> Suc (length xs)"
    using length_filter_le [of P xs] by linarith
  then show ?case using Cons by auto
qed

lemma count_matches_all:
  "count_matches ps = length ps \<longleftrightarrow> (\<forall>p\<in>set ps. predicted p = actual p)"
  by (simp add: count_matches_def length_filter_eq_length)

lemma count_matches_none:
  "count_matches ps = 0 \<longleftrightarrow> (\<forall>p\<in>set ps. predicted p \<noteq> actual p)"
  by (simp add: count_matches_def filter_empty_conv)

lemma count_matches_Cons_replicate:
  "count_matches (b # replicate n g) =
     (if predicted b = actual b then 1 else 0) + (if predicted g = actual g then n else 0)"
  by (simp add: count_matches_def)

lemma ratio_below_one:
  fixes m n :: nat
  assumes "m < n" "n < 2000000"
  shows "(of_nat m / of_nat n :: rat) < 1999999 / 2000000"
proof -
  have "2000000 * m + 2000000 \<le> 2000000 * n" using assms by simp
  then have "2000000 * m < 1999999 * n" using assms by simp
  then have "(of_nat (2000000 * m) :: rat) < of_nat (1999999 * n)"
    by (simp only: of_nat_less_iff)
  then show ?thesis using assms by (simp add: field_simps)
qed

lemma ratio_above_zero:
  fixes m n :: nat
  assumes "0 < m" "0 < n" "n < 2000000"
  shows "(1 / 2000000 :: rat) \<le> of_nat m / of_nat n"
proof -
  have "n \<le> 2000000 * m" using assms by (cases m) simp_all
  then have "(of_nat n :: rat) \<le> of_nat (2000000 * m)"
    by (simp only: of_nat_le_iff)
  then show ?thesis using assms by (simp add: field_simps)
qed

text \<open>
  C6, as the code has it. For a non-empty sequence of comparison triples the returned
  accuracy is a number in \<open>[0, 1]\<close>; it is 1 when every row matches and 0 when no row
  matches. The value is rounded to six decimals, so the converse directions hold for
  fewer than 2000000 rows: there the accuracy is 1 only if every row matches, and 0
  only if no row matches.
\<close>

theorem accuracy_range:
  assumes "predictions \<noteq> []"
  shows "\<exists>a. accuracy (computeMetrics (Some predictions)) = Some a \<and> 0 \<le> a \<and> a \<le> 1
           \<and> ((\<forall>p\<in>set predictions. predicted p = actual p) \<longrightarrow> a = 1)
           \<and> ((\<forall>p\<in>set predictions. predicted p \<noteq> actual p) \<longrightarrow> a = 0)
           \<and> (length predictions < 2000000 \<longrightarrow>
                (a = 1 \<longleftrightarrow> (\<forall>p\<in>set predictions. predicted p = actual p))
              \<and> (a = 0 \<longleftrightarrow> (\<forall>p\<in>set predictions. predicted p \<noteq> actual p)))"
proof -
  define m where "m = count_matches predictions"
  define n where "n = length predictions"
  define x :: rat where "x = of_nat m / of_nat n"
  have n: "0 < n" using assms by (simp add: n_def)
  have mn: "m \<le> n" unfolding m_def n_def by (rule count_matches_le)
  have x0: "0 \<le> x" by (simp add: x_def)
  have x1: "x \<le> 1" using n mn by (simp add: x_def)
  have acc: "accuracy (computeMetrics (Some predictions)) = Some (toFixed6 x)"
    using assms by (simp add: accuracy_computeMetrics x_def m_def n_def)
  have all_iff: "(\<forall>p\<in>set predictions. predicted p = actual p) \<longleftrightarrow> m = n"
    unfolding m_def n_def by (simp add: count_matches_all)
  have none_iff: "(\<forall>p\<in>set predictions. predicted p \<noteq> actual p) \<longleftrightarrow> m = 0"
    unfolding m_def by (simp add: count_matches_none)
  have one: "m = n \<Longrightarrow> toFixed6 x = 1"
    using n by (simp add: x_def toFixed6_eq_1_iff)
  have zero: "m = 0 \<Longrightarrow> toFixed6 x = 0"
    by (simp add: x_def toFixed6_eq_0_iff)
  have one_conv: "toFixed6 x = 1 \<Longrightarrow> m = n" if "n < 2000000"
  proof (rule ccontr)
    assume r: "toFixed6 x = 1" and "m \<noteq> n"
    then have "m < n" using mn by simp
    then have "x < 1999999 / 2000000" unfolding x_def using that by (rule ratio_below_one)
    then show False using r x0 by (simp add: toFixed6_eq_1_iff)
  qed
  have zero_conv: "toFixed6 x = 0 \<Longrightarrow> m = 0" if "n < 2000000"
  proof (rule ccontr)
    assume r: "toFixed6 x = 0" and "m \<noteq> 0"
    then have "0 < m" by simp
    then have "1 / 2000000 \<le> x" unfolding x_def using n that by (rule ratio_above_zero)
    then show False using r x0 by (simp add: toFixed6_eq_0_iff)
  qed
  show ?thesis
    using acc toFixed6_range [OF x0 x1] one zero one_conv zero_conv all_iff none_iff
    unfolding n_def [symmetric] by blast
qed

text \<open>
  The first two unit tests of the repository: three rows that all match, and three rows
  of which none matches.
\<close>

theorem accuracy_range_witness:
  "[\<lparr>cmp_row_id = ''1'', predicted = ''A'', actual = ''A'', match = True\<rparr>,
    \<lparr>cmp_row_id = ''2'', predicted = ''B'', actual = ''B'', match = True\<rparr>,
    \<lparr>cmp_row_id = ''3'', predicted = ''A'', actual = ''A'', match = True\<rparr>] \<noteq> []
   \<and> length
       [\<lparr>cmp_row_id = ''1'', predicted = ''A'', actual = ''A'', match = True\<rparr>,
        \<lparr>cmp_row_id = ''2'', predicted = ''B'', actual = ''B'', match = True\<rparr>,
        \<lparr>cmp_row_id = ''3'', predicted = ''A'', actual = ''A'', match = True\<rparr>] < 2000000
   \<and> accuracy (computeMetrics (Some
       [\<lparr>cmp_row_id = ''1'', predicted = ''A'', actual = ''A'', match = True\<rparr>,
        \<lparr>cmp_row_id = ''2'', predicted = ''B'', actual = ''B'', match = True\<rparr>,
        \<lparr>cmp_row_id = ''3'', predicted = ''A'', actual = ''A'', match = True\<rparr>])) = Some 1
   \<and> [\<lparr>cmp_row_id = ''1'', predicted = ''A'', actual = ''B'', match = False\<rparr>,
      \<lparr>cmp_row_id = ''2'', predicted = ''B'', actual = ''A'', match = False\<rparr>,
      \<lparr>cmp_row_id = ''3'', predicted = ''A'', actual = ''B'', match = False\<rparr>] \<noteq> []
   \<and> accuracy (computeMetrics (Some
       [\<lparr>cmp_row_id = ''1'', predicted = ''A'', actual = ''B'', match = False\<rparr>,
        \<lparr>cmp_row_id = ''2'', predicted = ''B'', actual = ''A'', match = False\<rparr>,
        \<lparr>cmp_row_id = ''3'', predicted = ''A'', actual = ''B'', match = False\<rparr>])) = Some 0"
proof -
  have a: "accuracy (computeMetrics (Some
       [\<lparr>cmp_row_id = ''1'', predicted = ''A'', actual = ''A'', match = True\<rparr>,
        \<lparr>cmp_row_id = ''2'', predicted = ''B'', actual = ''B'', match = True\<rparr>,
        \<lparr>cmp_row_id = ''3'', predicted = ''A'', actual = ''A'', match = True\<rparr>])) = Some 1"
    using accuracy_range
      [of "[\<lparr>cmp_row_id = ''1'', predicted = ''A'', actual = ''A'', match = True\<rparr>,
            \<lparr>cmp_row_id = ''2'', predicted = ''B'', actual = ''B'', match = True\<rparr>,
            \<lparr>cmp_row_id = ''3'', predicted = ''A'', actual = ''A'', match = True\<rparr>]"]
    by auto
  have b: "accuracy (computeMetrics (Some
       [\<lparr>cmp_row_id = ''1'', predicted = ''A'', actual = ''B'', match = False\<rparr>,
        \<lparr>cmp_row_id = ''2'', predicted = ''B'', actual = ''A'', match = False\<rparr>,
        \<lparr>cmp_row_id = ''3'', predicted = ''A'', actual = ''B'', match = False\<rparr>])) = Some 0"
    using accuracy_range
      [of "[\<lparr>cmp_row_id = ''1'', predicted = ''A'', actual = ''B'', match = False\<rparr>,
            \<lparr>cmp_row_id = ''2'', predicted = ''B'', actual = ''A'', match = False\<rparr>,
            \<lparr>cmp_row_id = ''3'', predicted = ''A'', actual = ''B'', match = False\<rparr>]"]
    by auto
  show ?thesis using a b by simp
qed

text \<open>
  C6 as stated fails on long inputs: with one mismatching row followed by 2999999
  matching rows the ratio \<open>2999999 / 3000000\<close> is rounded to 1, so the returned accuracy
  is 1 although a compared row does not match.
\<close>

theorem accuracy_one_with_mismatch:
  "accuracy (computeMetrics (Some
      (\<lparr>cmp_row_id = ''1'', predicted = ''B'', actual = ''A'', match = False\<rparr>
       # replicate 2999999
           \<lparr>cmp_row_id = ''2'', predicted = ''A'', actual = ''A'', match = True\<rparr>)))
     = Some 1
   \<and> predicted \<lparr>cmp_row_id = ''1'', predicted = ''B'', actual = ''A'', match = False\<rparr>
     \<noteq> actual \<lparr>cmp_row_id = ''1'', predicted = ''B'', actual = ''A'', match = False\<rparr>"
proof -
  have "toFixed6 (2999999 / 3000000) = 1"
    by (simp add: toFixed6_eq_1_iff)
  then show ?thesis
    by (simp add: accuracy_computeMetrics count_matches_Cons_replicate)
qed

subsection \<open>Macro averages and F1\<close>


















section \<open>Properties of \<open>compareCSVData\<close>\<close>

lemma fold_set_lookup:
  "fold (\<lambda>r m. m(row_id r \<mapsto> label r)) rows m k
     = (case map_of (rev (map (\<lambda>r. (row_id r, label r)) rows)) k of
          None \<Rightarrow> m k | Some v \<Rightarrow> Some v)"
proof (induction rows arbitrary: m)
  case Nil
  show ?case by simp
next
  case (Cons r rows)
  have "fold (\<lambda>r m. m(row_id r \<mapsto> label r)) (r # rows) m k
          = fold (\<lambda>r m. m(row_id r \<mapsto> label r)) rows (m(row_id r \<mapsto> label r)) k"
    by simp
  also have "\<dots> = (case map_of (rev (map (\<lambda>r. (row_id r, label r)) rows)) k of
                      None \<Rightarrow> (m(row_id r \<mapsto> label r)) k | Some v \<Rightarrow> Some v)"
    by (rule Cons.IH)
  also have "\<dots> = (case map_of (rev (map (\<lambda>r. (row_id r, label r)) (r # rows))) k of
                      None \<Rightarrow> m k | Some v \<Rightarrow> Some v)"
    by (simp add: map_add_def split: option.splits)
  finally show ?case .
qed

lemma build_map_map_of:
  "build_map rows = map_of (rev (map (\<lambda>r. (row_id r, label r)) rows))"
  by (rule ext) (simp add: build_map_def fold_set_lookup split: option.splits)

lemma build_map_None: "build_map rows k = None \<longleftrightarrow> k \<notin> row_id ` set rows"
  by (simp add: build_map_map_of map_of_eq_None_iff image_image)

lemma build_map_Some_iff: "(\<exists>y. build_map rows k = Some y) \<longleftrightarrow> k \<in> row_id ` set rows"
  using build_map_None [of rows k] by auto

lemma join_rows_fst:
  "fst (join_rows userMap answer) =
     map (\<lambda>a. \<lparr>cmp_row_id = row_id a, predicted = the (userMap (row_id a)), actual = label a,
               match = (the (userMap (row_id a)) = label a)\<rparr>)
         (filter (\<lambda>a. userMap (row_id a) \<noteq> None) answer)"
  by (induction answer) (auto split: prod.splits option.splits)

lemma join_rows_snd:
  "snd (join_rows userMap answer) = map row_id (filter (\<lambda>a. userMap (row_id a) = None) answer)"
  by (induction answer) (auto split: prod.splits option.splits)

lemma comparisons_compareCSVData:
  "comparisons (compareCSVData user answer) = fst (join_rows (build_map user) answer)"
  by (simp add: compareCSVData_def Let_def)

lemma rowsCompared_compareCSVData:
  "rowsCompared (compareCSVData user answer)
     = length (filter (\<lambda>a. row_id a \<in> row_id ` set user) answer)"
  by (simp add: compareCSVData_def Let_def join_rows_fst build_map_Some_iff)

lemma missingRows_compareCSVData:
  "missingRows (compareCSVData user answer)
     = length (filter (\<lambda>a. row_id a \<notin> row_id ` set user) answer)"
  by (simp add: compareCSVData_def Let_def join_rows_snd build_map_None)

lemma extraRows_compareCSVData:
  "extraRows (compareCSVData user answer)
     = length (filter (\<lambda>u. row_id u \<notin> row_id ` set answer) user)"
  by (simp add: compareCSVData_def Let_def build_map_None)

lemma length_filter_distinct_ids:
  assumes "distinct (map row_id rows)"
  shows "length (filter (\<lambda>r. P (row_id r)) rows) = card {i \<in> row_id ` set rows. P i}"
proof -
  have "length (filter (\<lambda>r. P (row_id r)) rows) = length (filter P (map row_id rows))"
    by (simp add: filter_map comp_def)
  also have "\<dots> = card (set (filter P (map row_id rows)))"
    using assms distinct_card [of "filter P (map row_id rows)"] by (simp only: distinct_filter)
  also have "set (filter P (map row_id rows)) = {i \<in> row_id ` set rows. P i}"
    by auto
  finally show ?thesis .
qed

text \<open>
  C3, as the code has it. \<open>rowsCompared\<close> is the number of canonical rows whose id occurs
  in the submission, \<open>missingRows\<close> the number of canonical rows whose id does not, and
  \<open>extraRows\<close> the number of submission rows whose id does not occur in the canonical
  rows: rows are counted, not distinct ids. When the canonical ids are distinct,
  \<open>rowsCompared\<close> and \<open>missingRows\<close> are the cardinalities of the intersection and of the
  difference of the id sets; when the submission ids are distinct, \<open>extraRows\<close> is the
  cardinality of the difference.
\<close>

theorem compare_counts:
  "rowsCompared (compareCSVData user answer)
     = length (filter (\<lambda>a. row_id a \<in> row_id ` set user) answer)
   \<and> missingRows (compareCSVData user answer)
     = length (filter (\<lambda>a. row_id a \<notin> row_id ` set user) answer)
   \<and> extraRows (compareCSVData user answer)
     = length (filter (\<lambda>u. row_id u \<notin> row_id ` set answer) user)
   \<and> (distinct (map row_id answer) \<longrightarrow>
        rowsCompared (compareCSVData user answer)
          = card (row_id ` set answer \<inter> row_id ` set user)
      \<and> missingRows (compareCSVData user answer)
          = card (row_id ` set answer - row_id ` set user))
   \<and> (distinct (map row_id user) \<longrightarrow>
        extraRows (compareCSVData user answer)
          = card (row_id ` set user - row_id ` set answer))"
proof -
  have a: "{i \<in> row_id ` set answer. i \<in> row_id ` set user}
             = row_id ` set answer \<inter> row_id ` set user" by auto
  have b: "{i \<in> row_id ` set answer. i \<notin> row_id ` set user}
             = row_id ` set answer - row_id ` set user" by auto
  have c: "{i \<in> row_id ` set user. i \<notin> row_id ` set answer}
             = row_id ` set user - row_id ` set answer" by auto
  show ?thesis
    unfolding rowsCompared_compareCSVData missingRows_compareCSVData extraRows_compareCSVData
    using length_filter_distinct_ids [of answer "\<lambda>i. i \<in> row_id ` set user"]
      length_filter_distinct_ids [of answer "\<lambda>i. i \<notin> row_id ` set user"]
      length_filter_distinct_ids [of user "\<lambda>i. i \<notin> row_id ` set answer"]
    by (simp add: a b c)
qed

text \<open>The third scenario of the specification: canonical rows 1 and 2, submission row 1.\<close>

theorem compare_counts_witness:
  "distinct (map row_id [\<lparr>row_id = ''1'', label = ''A''\<rparr>, \<lparr>row_id = ''2'', label = ''B''\<rparr>])
   \<and> distinct (map row_id [\<lparr>row_id = ''1'', label = ''A''\<rparr>])
   \<and> rowsCompared (compareCSVData [\<lparr>row_id = ''1'', label = ''A''\<rparr>]
        [\<lparr>row_id = ''1'', label = ''A''\<rparr>, \<lparr>row_id = ''2'', label = ''B''\<rparr>]) = 1
   \<and> missingRows (compareCSVData [\<lparr>row_id = ''1'', label = ''A''\<rparr>]
        [\<lparr>row_id = ''1'', label = ''A''\<rparr>, \<lparr>row_id = ''2'', label = ''B''\<rparr>]) = 1
   \<and> extraRows (compareCSVData [\<lparr>row_id = ''1'', label = ''A''\<rparr>]
        [\<lparr>row_id = ''1'', label = ''A''\<rparr>, \<lparr>row_id = ''2'', label = ''B''\<rparr>]) = 0"
  using compare_counts [of "[\<lparr>row_id = ''1'', label = ''A''\<rparr>]"
      "[\<lparr>row_id = ''1'', label = ''A''\<rparr>, \<lparr>row_id = ''2'', label = ''B''\<rparr>]"]
  by simp


text \<open>
  C3 as stated fails when the submission repeats an id that the canonical rows do not
  have: both rows with id 3 are counted as extra rows, and the set difference has one
  element.
\<close>

theorem extra_rows_counted_twice:
  "extraRows (compareCSVData
      [\<lparr>row_id = ''1'', label = ''A''\<rparr>, \<lparr>row_id = ''3'', label = ''C''\<rparr>,
       \<lparr>row_id = ''3'', label = ''D''\<rparr>]
      [\<lparr>row_id = ''1'', label = ''A''\<rparr>, \<lparr>row_id = ''2'', label = ''B''\<rparr>]) = 2
   \<and> card (row_id ` set [\<lparr>row_id = ''1'', label = ''A''\<rparr>, \<lparr>row_id = ''3'', label = ''C''\<rparr>,
                          \<lparr>row_id = ''3'', label = ''D''\<rparr>]
           - row_id ` set [\<lparr>row_id = ''1'', label = ''A''\<rparr>, \<lparr>row_id = ''2'', label = ''B''\<rparr>]) = 1"
  by (simp add: extraRows_compareCSVData)

lemma build_map_snoc: "build_map (rows @ [r]) = (build_map rows)(row_id r \<mapsto> label r)"
  by (simp add: build_map_def)

lemma build_map_last_label:
  "build_map rows i =
     (if filter (\<lambda>r. row_id r = i) rows = [] then None
      else Some (label (last (filter (\<lambda>r. row_id r = i) rows))))"
proof (induction rows rule: rev_induct)
  case Nil
  show ?case by (simp add: build_map_def)
next
  case (snoc x xs)
  show ?case
  proof (cases "row_id x = i")
    case True
    then show ?thesis by (simp add: build_map_snoc)
  next
    case False
    then show ?thesis using snoc.IH by (simp add: build_map_snoc)
  qed
qed

lemma build_map_in_ids:
  assumes "i \<in> row_id ` set rows"
  shows "build_map rows i = Some (label (last (filter (\<lambda>r. row_id r = i) rows)))"
proof -
  from assms have "filter (\<lambda>r. row_id r = i) rows \<noteq> []"
    by (auto simp: filter_empty_conv)
  then show ?thesis by (simp add: build_map_last_label)
qed

text \<open>
  C9. The join is determined by the last row of each id: the comparison triples are the
  canonical rows whose id occurs in the submission, in canonical order, each with the
  label of the last submission row of that id as \<open>predicted\<close>. Earlier rows of an id
  take no part.
\<close>

theorem last_write_wins:
  "comparisons (compareCSVData user answer) =
     map (\<lambda>a. \<lparr>cmp_row_id = row_id a,
                predicted = label (last (filter (\<lambda>r. row_id r = row_id a) user)),
                actual = label a,
                match = (label (last (filter (\<lambda>r. row_id r = row_id a) user)) = label a)\<rparr>)
         (filter (\<lambda>a. row_id a \<in> row_id ` set user) answer)"
proof -
  have f: "filter (\<lambda>a. build_map user (row_id a) \<noteq> None) answer
             = filter (\<lambda>a. row_id a \<in> row_id ` set user) answer"
    by (rule filter_cong) (simp_all add: build_map_None)
  show ?thesis
    unfolding comparisons_compareCSVData join_rows_fst f
    by (rule map_cong) (simp_all add: build_map_in_ids)
qed

text \<open>
  A submission with id 1 twice, first labelled \<open>X\<close>, then \<open>A\<close>, followed by id 2: the
  triple for id 1 is emitted and has the later label.
\<close>

theorem last_write_wins_witness:
  "comparisons (compareCSVData
     [\<lparr>row_id = ''1'', label = ''X''\<rparr>, \<lparr>row_id = ''1'', label = ''A''\<rparr>,
      \<lparr>row_id = ''2'', label = ''B''\<rparr>]
     [\<lparr>row_id = ''1'', label = ''A''\<rparr>, \<lparr>row_id = ''2'', label = ''B''\<rparr>])
   = [\<lparr>cmp_row_id = ''1'', predicted = ''A'', actual = ''A'', match = True\<rparr>,
      \<lparr>cmp_row_id = ''2'', predicted = ''B'', actual = ''B'', match = True\<rparr>]"
  by (simp add: last_write_wins)

section \<open>Properties of the preview\<close>




section \<open>Properties of the upload handler\<close>

lemma toFixed6_1: "toFixed6 1 = 1"
  by (simp add: toFixed6_eq_1_iff)

lemma trim_examples:
  "trim ''1'' = ''1''" "trim ''2'' = ''2''" "trim ''A'' = ''A''"
  "trim [CHR 0xC2, CHR 0xA0, CHR ''1'', CHR '' ''] = ''1''"
  "trim [CHR 0xEF, CHR 0xBB, CHR 0xBF, CHR ''a'', CHR '' '', CHR ''b'', CHR 0xE2, CHR 0x80, CHR 0xA8, CHR 0x0A]
     = ''a b''"
  by (simp_all add: trim_def strip.simps white_space_def)

lemma upload_prepare_no_user:
  assumes "req_user req = None"
  shows "upload_prepare req d =
     (case req_file req of
        None \<Rightarrow> (Inl NoFileUploaded, [])
      | Some f \<Rightarrow>
          (case answerCSV d of
             None \<Rightarrow> (Inl NoAnswerCSV, [Unlink])
           | Some answer \<Rightarrow> (Inl InternalError, [Unlink])))"
  using assms by (simp add: upload_prepare_def Let_def split: option.splits)

lemma upload_prepare_no_user_Inl:
  "req_user req = None \<Longrightarrow> \<exists>e. fst (upload_prepare req d) = Inl e"
  by (simp add: upload_prepare_no_user split: option.splits)

lemma upload_no_user:
  assumes "req_user req = None"
  shows "upload req d =
     (case req_file req of
        None \<Rightarrow> (Inl NoFileUploaded, d, [])
      | Some f \<Rightarrow>
          (case answerCSV d of
             None \<Rightarrow> (Inl NoAnswerCSV, d, [Unlink])
           | Some answer \<Rightarrow> (Inl InternalError, d, [Unlink])))"
  by (simp add: upload_def upload_prepare_no_user [OF assms] split: option.splits)

lemma post_upload_eq:
  "post_upload r d =
     (case http_session_user r of
        None \<Rightarrow> (Inl AuthenticationRequired, d, [])
      | Some u \<Rightarrow>
          (case http_file r of
             None \<Rightarrow> (Inl NoFileUploaded, d, [])
           | Some f \<Rightarrow>
               (case answerCSV d of
                  None \<Rightarrow> (Inl NoAnswerCSV, d, [Unlink])
                | Some answer \<Rightarrow> (Inl InternalError, d, [Unlink]))))"
  by (simp add: post_upload_def requireAuth_def upload_no_user split: option.splits)

lemma other_compare:
  "compareCSVData [\<lparr>row_id = ''2'', label = ''A''\<rparr>] [\<lparr>row_id = ''1'', label = ''A''\<rparr>]
      = \<lparr>accuracy = Some 0, precision = Some 0, recall = Some 0, f1 = Some 0,
         matches = 0, rowsInCanonical = 1, rowsInSubmission = 1,
         rowsCompared = 0, missingRows = 1, extraRows = 1,
         comparisons = [], missingRowIds = [''1''], extraRowIds = [''2'']\<rparr>"
  by (simp add: compareCSVData_def build_map_def computeMetrics_def)

lemma step_no_user:
  assumes "step (d, ts) (d', ts')"
    and "\<forall>t\<in>set ts. t = Answered \<or> (\<exists>r. t = Waiting r \<and> req_user r = None)"
  shows "d' = d \<and> (\<forall>t\<in>set ts'. t = Answered \<or> (\<exists>r. t = Waiting r \<and> req_user r = None))"
  using assms
proof (cases rule: step.cases)
  case (read_ok i req s)
  then have "Waiting req \<in> set ts" by (metis nth_mem)
  then have "req_user req = None" using assms(2) by auto
  then show ?thesis using upload_prepare_no_user_Inl [of req d] read_ok by simp
next
  case (read_error i req e)
  have "set (ts[i := Answered]) \<subseteq> insert Answered (set ts)"
    by (rule set_update_subset_insert)
  then show ?thesis using read_error assms(2) by auto
next
  case (write_doc i s)
  then have "Built s \<in> set ts" by (metis nth_mem)
  then show ?thesis using assms(2) by auto
qed

lemma steps_no_user:
  assumes "step\<^sup>*\<^sup>* (d, ts) (d', ts')"
    and "\<forall>t\<in>set ts. t = Answered \<or> (\<exists>r. t = Waiting r \<and> req_user r = None)"
  shows "d' = d \<and> (\<forall>t\<in>set ts'. t = Answered \<or> (\<exists>r. t = Waiting r \<and> req_user r = None))"
  using assms
proof (induction rule: rtranclp_induct2)
  case refl
  then show ?case by simp
next
  case (step d1 ts1 d2 ts2)
  then show ?case using step_no_user [of d1 ts1 d2 ts2] by blast
qed

text \<open>
  C5 on the code. The handler reads the upload limit from \<open>req.user\<close>, which no request
  has: the read throws before the limit is compared, and the handler answers with
  status 500. So no request is answered with the upload-limit error. With a configured
  default limit of 0, user \<open>u1\<close> has reached the limit with no stored submission, and
  the upload is answered with status 500 instead.
\<close>

theorem upload_limit_not_reported:
  "fst (post_upload r d) \<noteq> Inl (UploadLimitReached n l)
   \<and> uploadLimit example_user (example_db\<lparr>defaultUploadLimit := Some 0\<rparr>) = 0
   \<and> countDocuments (user_id example_user) (example_db\<lparr>defaultUploadLimit := Some 0\<rparr>) = 0
   \<and> post_upload \<lparr>http_file = Some example_file, http_session_user = Some example_user\<rparr>
        (example_db\<lparr>defaultUploadLimit := Some 0\<rparr>)
      = (Inl InternalError, example_db\<lparr>defaultUploadLimit := Some 0\<rparr>, [Unlink])"
proof -
  have a: "fst (post_upload r d) \<noteq> Inl (UploadLimitReached n l)"
    by (simp add: post_upload_eq split: option.splits)
  have b: "uploadLimit example_user (example_db\<lparr>defaultUploadLimit := Some 0\<rparr>) = 0"
    by (simp add: uploadLimit_def example_user_def)
  have c: "countDocuments (user_id example_user) (example_db\<lparr>defaultUploadLimit := Some 0\<rparr>) = 0"
    by (simp add: countDocuments_def example_db_def)
  have e: "post_upload \<lparr>http_file = Some example_file, http_session_user = Some example_user\<rparr>
        (example_db\<lparr>defaultUploadLimit := Some 0\<rparr>)
      = (Inl InternalError, example_db\<lparr>defaultUploadLimit := Some 0\<rparr>, [Unlink])"
    by (simp add: post_upload_eq example_db_def)
  show ?thesis using a b c e by (intro conjI)
qed

text \<open>
  C1 on the code. A submission whose only id is not a canonical id has no row to
  compare. The request is answered with status 500, as every upload, and not with an
  error of its own. The handler has no check of \<open>rowsCompared\<close> either: given a request
  with \<open>req.user\<close> set, it answers with the submission and stores it, with
  \<open>rowsCompared = 0\<close> and all four metrics 0.
\<close>

theorem no_overlap_not_reported:
  "rowsCompared (compareCSVData [\<lparr>row_id = ''2'', label = ''A''\<rparr>]
                                [\<lparr>row_id = ''1'', label = ''A''\<rparr>]) = 0
   \<and> post_upload \<lparr>http_file = Some other_file, http_session_user = Some example_user\<rparr>
        example_db
      = (Inl InternalError, example_db, [Unlink])
   \<and> upload \<lparr>req_file = Some other_file, session_user = example_user,
              req_user = Some example_user\<rparr> example_db
      = (Inr \<lparr>accuracy = Some 0, precision = Some 0, recall = Some 0, f1 = Some 0,
             matches = 0, rowsInCanonical = 1, rowsInSubmission = 1,
             rowsCompared = 0, missingRows = 1, extraRows = 1, userId = ''u1'',
             filename = ''s.csv'', rowsTotal = 0, fileDataPreview = [],
             attemptNumber = 1\<rparr>,
         example_db\<lparr>submissions :=
            [\<lparr>accuracy = Some 0, precision = Some 0, recall = Some 0, f1 = Some 0,
              matches = 0, rowsInCanonical = 1, rowsInSubmission = 1,
              rowsCompared = 0, missingRows = 1, extraRows = 1, userId = ''u1'',
              filename = ''s.csv'', rowsTotal = 0, fileDataPreview = [],
              attemptNumber = 1\<rparr>]\<rparr>,
         [ParseCSV, Compare, Save, Unlink])"
proof -
  have a: "rowsCompared (compareCSVData [\<lparr>row_id = ''2'', label = ''A''\<rparr>]
                                [\<lparr>row_id = ''1'', label = ''A''\<rparr>]) = 0"
    by (simp add: other_compare)
  have b: "post_upload \<lparr>http_file = Some other_file, http_session_user = Some example_user\<rparr>
        example_db = (Inl InternalError, example_db, [Unlink])"
    by (simp add: post_upload_eq example_db_def)
  have c: "upload \<lparr>req_file = Some other_file, session_user = example_user,
              req_user = Some example_user\<rparr> example_db
      = (Inr \<lparr>accuracy = Some 0, precision = Some 0, recall = Some 0, f1 = Some 0,
             matches = 0, rowsInCanonical = 1, rowsInSubmission = 1,
             rowsCompared = 0, missingRows = 1, extraRows = 1, userId = ''u1'',
             filename = ''s.csv'', rowsTotal = 0, fileDataPreview = [],
             attemptNumber = 1\<rparr>,
         example_db\<lparr>submissions :=
            [\<lparr>accuracy = Some 0, precision = Some 0, recall = Some 0, f1 = Some 0,
              matches = 0, rowsInCanonical = 1, rowsInSubmission = 1,
              rowsCompared = 0, missingRows = 1, extraRows = 1, userId = ''u1'',
              filename = ''s.csv'', rowsTotal = 0, fileDataPreview = [],
              attemptNumber = 1\<rparr>]\<rparr>,
         [ParseCSV, Compare, Save, Unlink])"
    by (simp add: upload_def upload_prepare_def Let_def countDocuments_def uploadLimit_def
        example_db_def example_user_def other_file_def trim_examples other_compare
        preview_def save_def)
  show ?thesis using a b c by (intro conjI)
qed

text \<open>
  C4 on the code. Two requests that have passed \<open>requireAuth\<close> and are in flight at the
  same time store nothing, in whatever order their steps are taken: no submission gets
  an attempt number.
\<close>

theorem concurrent_uploads_store_nothing:
  assumes "requireAuth r1 = Inr req1" and "requireAuth r2 = Inr req2"
    and "step\<^sup>*\<^sup>* (d, [Waiting req1, Waiting req2]) (d', ts')"
  shows "d' = d"
proof -
  have "req_user req1 = None" "req_user req2 = None"
    using assms(1,2) by (auto simp: requireAuth_def split: option.splits)
  then have "\<forall>t\<in>set [Waiting req1, Waiting req2].
               t = Answered \<or> (\<exists>r. t = Waiting r \<and> req_user r = None)"
    by simp
  from steps_no_user [OF assms(3) this] show ?thesis by simp
qed

text \<open>Two uploads of user \<open>u1\<close>, both answered without a document being stored.\<close>

theorem concurrent_uploads_store_nothing_witness:
  "requireAuth \<lparr>http_file = Some example_file, http_session_user = Some example_user\<rparr>
     = Inr \<lparr>req_file = Some example_file, session_user = example_user, req_user = None\<rparr>
   \<and> step\<^sup>*\<^sup>*
       (example_db,
        [Waiting \<lparr>req_file = Some example_file, session_user = example_user, req_user = None\<rparr>,
         Waiting \<lparr>req_file = Some example_file, session_user = example_user, req_user = None\<rparr>])
       (example_db, [Answered, Answered])
   \<and> submissions example_db = []"
proof -
  let ?r = "\<lparr>req_file = Some example_file, session_user = example_user, req_user = None\<rparr>"
  have a: "requireAuth \<lparr>http_file = Some example_file, http_session_user = Some example_user\<rparr>
     = Inr ?r"
    by (simp add: requireAuth_def)
  have p: "fst (upload_prepare ?r example_db) = Inl InternalError"
    by (simp add: upload_prepare_no_user example_db_def)
  have s1: "step (example_db, [Waiting ?r, Waiting ?r]) (example_db, [Answered, Waiting ?r])"
    using step.read_error [of 0 "[Waiting ?r, Waiting ?r]" ?r example_db InternalError] p by simp
  have s2: "step (example_db, [Answered, Waiting ?r]) (example_db, [Answered, Answered])"
    using step.read_error [of 1 "[Answered, Waiting ?r]" ?r example_db InternalError] p by simp
  have run: "step\<^sup>*\<^sup>* (example_db, [Waiting ?r, Waiting ?r]) (example_db, [Answered, Answered])"
    using s1 s2 by (meson rtranclp.rtrancl_into_rtrancl rtranclp.rtrancl_refl)
  have "submissions example_db = []"
    using concurrent_uploads_store_nothing [OF a a run] by (simp add: example_db_def)
  then show ?thesis using a run by (intro conjI)
qed

text \<open>
  The handler has no protection between its count of the stored submissions and
  \<open>save\<close> either: given two requests with \<open>req.user\<close> set that both read the count before
  either document is saved, both documents are stored with attempt number 1.
\<close>

lemma example_compare:
  "compareCSVData [\<lparr>row_id = ''1'', label = ''A''\<rparr>] [\<lparr>row_id = ''1'', label = ''A''\<rparr>]
     = \<lparr>accuracy = Some 1, precision = Some 1, recall = Some 1, f1 = Some 1,
        matches = 1, rowsInCanonical = 1, rowsInSubmission = 1,
        rowsCompared = 1, missingRows = 0, extraRows = 0,
        comparisons = [\<lparr>cmp_row_id = ''1'', predicted = ''A'', actual = ''A'', match = True\<rparr>],
        missingRowIds = [], extraRowIds = []\<rparr>"
  by (simp add: compareCSVData_def build_map_def computeMetrics_def round6_def
      count_matches_def avgPrecision_def avgRecall_def allLabels_def set_add_def average_def
      class_precision_def class_recall_def tp_def fp_def fn_def f1_raw_def toFixed6_1)

lemma example_prepare_with_user:
  "upload_prepare \<lparr>req_file = Some example_file, session_user = example_user,
                   req_user = Some example_user\<rparr> example_db
     = (Inr (example_submission 1), [ParseCSV, Compare])"
  by (simp add: upload_prepare_def example_file_def example_user_def example_db_def Let_def
      countDocuments_def uploadLimit_def trim_examples example_compare preview_def
      example_submission_def)

lemma same_attempt_number_with_user:
  "step\<^sup>*\<^sup>*
     (example_db,
      [Waiting \<lparr>req_file = Some example_file, session_user = example_user,
                req_user = Some example_user\<rparr>,
       Waiting \<lparr>req_file = Some example_file, session_user = example_user,
                req_user = Some example_user\<rparr>])
     (example_db\<lparr>submissions := [example_submission 1, example_submission 1]\<rparr>,
      [Answered, Answered])"
proof -
  let ?r = "\<lparr>req_file = Some example_file, session_user = example_user,
             req_user = Some example_user\<rparr>"
    and ?s = "example_submission 1" and ?d = example_db
  have p: "fst (upload_prepare ?r ?d) = Inr ?s"
    by (simp add: example_prepare_with_user)
  have s1: "step (?d, [Waiting ?r, Waiting ?r]) (?d, [Built ?s, Waiting ?r])"
    using step.read_ok [of 0 "[Waiting ?r, Waiting ?r]" ?r ?d ?s] p by simp
  have s2: "step (?d, [Built ?s, Waiting ?r]) (?d, [Built ?s, Built ?s])"
    using step.read_ok [of 1 "[Built ?s, Waiting ?r]" ?r ?d ?s] p by simp
  have s3: "step (?d, [Built ?s, Built ?s]) (save ?s ?d, [Answered, Built ?s])"
    using step.write_doc [of 0 "[Built ?s, Built ?s]" ?s ?d] by simp
  have s4: "step (save ?s ?d, [Answered, Built ?s]) (save ?s (save ?s ?d), [Answered, Answered])"
    using step.write_doc [of 1 "[Answered, Built ?s]" ?s "save ?s ?d"] by simp
  have e: "save ?s (save ?s ?d) = ?d\<lparr>submissions := [?s, ?s]\<rparr>"
    by (simp add: save_def example_db_def)
  have "step\<^sup>*\<^sup>* (?d, [Waiting ?r, Waiting ?r]) (save ?s (save ?s ?d), [Answered, Answered])"
    using s1 s2 s3 s4 by (meson rtranclp.rtrancl_into_rtrancl rtranclp.rtrancl_refl)
  then show ?thesis unfolding e .
qed

section \<open>Properties of the leaderboard\<close>

lemma mset_insert_desc: "mset (insert_desc k x xs) = add_mset x (mset xs)"
  by (induction xs) auto

lemma mset_sort_desc: "mset (sort_desc k xs) = mset xs"
  by (induction xs) (simp_all add: sort_desc_def mset_insert_desc)

lemma set_insert_desc: "set (insert_desc k x xs) = insert x (set xs)"
  by (induction xs) auto

lemma sorted_insert_desc:
  "sorted_wrt (\<lambda>a b. k b \<le> k a) xs \<Longrightarrow> sorted_wrt (\<lambda>a b. k b \<le> k a) (insert_desc k x xs)"
  by (induction xs) (auto simp: set_insert_desc)

lemma sorted_sort_desc: "sorted_wrt (\<lambda>a b. k b \<le> k a) (sort_desc k xs)"
  by (induction xs) (simp_all add: sort_desc_def sorted_insert_desc)

lemma sort_stage_sort_desc: "sort_stage k xs (sort_desc k xs)"
  by (simp add: sort_stage_def mset_sort_desc sorted_sort_desc)

lemma leaderboard_answers:
  "\<exists>answer. leaderboard q d answer"
proof (cases "query_limit q \<le> 0")
  case True
  then show ?thesis by (auto simp: leaderboard_def)
next
  case False
  let ?s = "sort_desc score_key (submissions d)"
  let ?g = "group_first ?s"
  let ?r = "sort_desc group_key ?g"
  have "aggregate (nat (query_limit q)) (submissions d) (take (nat (query_limit q)) ?r)"
    unfolding aggregate_def group_stage_def
    using sort_stage_sort_desc [of score_key "submissions d"] sort_stage_sort_desc [of group_key ?g]
    by blast
  then show ?thesis using False by (auto simp: leaderboard_def)
qed

lemma group_first_ids: "set (map group_id (group_first xs)) = userId ` set xs"
  by (induction xs rule: group_first.induct) auto

lemma distinct_group_first: "distinct (map group_id (group_first xs))"
  by (induction xs rule: group_first.induct) (auto simp: group_first_ids simp flip: set_map)

lemma group_first_best:
  assumes "sorted_wrt (\<lambda>a b. score_key b \<le> score_key a) xs" "e \<in> set (group_first xs)"
  shows "\<exists>s\<in>set xs. userId s = group_id e \<and> accuracy s = bestAccuracy e \<and> f1 s = bestF1 e
           \<and> precision s = bestPrecision e \<and> recall s = bestRecall e
           \<and> attemptNumber s = group_attemptNumber e
           \<and> (\<forall>t\<in>set xs. userId t = userId s \<longrightarrow> score_key t \<le> score_key s)"
  using assms
proof (induction xs rule: group_first.induct)
  case 1
  then show ?case by simp
next
  case (2 s rest)
  let ?rest = "filter (\<lambda>t. userId t \<noteq> userId s) rest"
  show ?case
  proof (cases "e \<in> set (group_first ?rest)")
    case True
    have "sorted_wrt (\<lambda>a b. score_key b \<le> score_key a) ?rest"
      using "2.prems"(1) by (simp add: sorted_wrt_filter)
    from "2.IH" [OF this True] obtain s' where s': "s' \<in> set ?rest"
      "userId s' = group_id e" "accuracy s' = bestAccuracy e" "f1 s' = bestF1 e"
      "precision s' = bestPrecision e" "recall s' = bestRecall e"
      "attemptNumber s' = group_attemptNumber e"
      "\<forall>t\<in>set ?rest. userId t = userId s' \<longrightarrow> score_key t \<le> score_key s'"
      by blast
    have "\<forall>t\<in>set (s # rest). userId t = userId s' \<longrightarrow> score_key t \<le> score_key s'"
      using s'(1,8) by auto
    then show ?thesis using s' by auto
  next
    case False
    then have e: "e = \<lparr>group_id = userId s, bestAccuracy = accuracy s, bestF1 = f1 s,
      bestPrecision = precision s, bestRecall = recall s,
      group_attemptNumber = attemptNumber s\<rparr>"
      using "2.prems"(2) by simp
    have "\<forall>t\<in>set (s # rest). score_key t \<le> score_key s"
      using "2.prems"(1) by auto
    then show ?thesis unfolding e by auto
  qed
qed

lemma length_with_rank: "length (with_rank es) = length es"
  by (simp add: with_rank_def)

lemma nth_with_rank:
  "i < length es \<Longrightarrow> with_rank es ! i =
     \<lparr>rank = i + 1, lb_userId = group_id (es ! i), lb_accuracy = bestAccuracy (es ! i),
      lb_f1 = bestF1 (es ! i), lb_precision = bestPrecision (es ! i),
      lb_recall = bestRecall (es ! i), lb_attemptNumber = group_attemptNumber (es ! i)\<rparr>"
  by (simp add: with_rank_def)

lemma map_userId_with_rank: "map lb_userId (with_rank es) = map group_id es"
  by (rule nth_equalityI) (simp_all add: length_with_rank nth_with_rank)

lemma aggregate_ranked:
  assumes "aggregate n subs result"
  shows "\<exists>ranked. result = take n ranked
    \<and> sorted_wrt (\<lambda>a b. group_key b \<le> group_key a) ranked
    \<and> distinct (map group_id ranked)
    \<and> set (map group_id ranked) = userId ` set subs
    \<and> (\<forall>e\<in>set ranked.
           \<exists>s\<in>set subs. userId s = group_id e \<and> accuracy s = bestAccuracy e \<and> f1 s = bestF1 e
             \<and> attemptNumber s = group_attemptNumber e
             \<and> (\<forall>t\<in>set subs. userId t = userId s \<longrightarrow> score_key t \<le> score_key s))"
proof -
  from assms obtain sorted groups ranked where
    s: "mset sorted = mset subs" "sorted_wrt (\<lambda>a b. score_key b \<le> score_key a) sorted"
    and g: "mset groups = mset (group_first sorted)"
    and r: "mset ranked = mset groups" "sorted_wrt (\<lambda>a b. group_key b \<le> group_key a) ranked"
    and res: "result = take n ranked"
    by (auto simp: aggregate_def sort_stage_def group_stage_def)
  have m: "mset ranked = mset (group_first sorted)" using r(1) g by simp
  have set_sorted: "set sorted = set subs" using s(1) by (rule mset_eq_setD)
  have set_ranked: "set ranked = set (group_first sorted)" using m by (rule mset_eq_setD)
  have "mset (map group_id ranked) = mset (map group_id (group_first sorted))"
    using m by (metis mset_map)
  then have d: "distinct (map group_id ranked)"
    using distinct_group_first [of sorted] by (metis mset_eq_imp_distinct_iff)
  have ids: "set (map group_id ranked) = userId ` set subs"
    using group_first_ids [of sorted] set_ranked set_sorted by simp
  have best: "\<exists>s\<in>set subs. userId s = group_id e \<and> accuracy s = bestAccuracy e \<and> f1 s = bestF1 e
             \<and> attemptNumber s = group_attemptNumber e
             \<and> (\<forall>t\<in>set subs. userId t = userId s \<longrightarrow> score_key t \<le> score_key s)"
    if "e \<in> set ranked" for e
  proof -
    from that have "e \<in> set (group_first sorted)" by (simp add: set_ranked)
    from group_first_best [OF s(2) this] show ?thesis
      unfolding set_sorted by blast
  qed
  show ?thesis using res r(2) d ids best by blast
qed

lemma leaderboard_answerI:
  assumes "0 < query_limit q"
    and "sort_stage score_key (submissions d) first_sorted"
    and "sort_stage group_key (group_first first_sorted) ranked"
    and "rows = with_rank (take (nat (query_limit q)) ranked)"
  shows "leaderboard q d (Inr rows)"
proof -
  have "group_stage first_sorted (group_first first_sorted)"
    by (simp add: group_stage_def)
  then have "aggregate (nat (query_limit q)) (submissions d) (take (nat (query_limit q)) ranked)"
    unfolding aggregate_def using assms(2,3) by blast
  then show ?thesis using assms(1,4) by (auto simp: leaderboard_def)
qed

text \<open>
  C2, as the code has it. In every list that the leaderboard can return, the rank of an
  entry is its position counted from 1; an entry that comes later has a lower accuracy,
  or the same accuracy and an f1 that is not higher; no participant occurs twice, and
  the list has as many entries as there are participants with a submission, or as the
  limit allows; every entry shows a submission of its participant that no other
  submission of the same participant beats on accuracy, then f1; and no submission of
  a participant who is not listed beats an entry. The attempt number is carried along
  and takes no part in either ordering.
\<close>

theorem leaderboard_ranked:
  assumes "leaderboard q d (Inr rows)"
  shows "(\<forall>i<length rows. rank (rows ! i) = i + 1)
       \<and> (\<forall>i j. i < j \<and> j < length rows \<longrightarrow>
            lb_accuracy (rows ! j) < lb_accuracy (rows ! i)
            \<or> (lb_accuracy (rows ! j) = lb_accuracy (rows ! i)
               \<and> lb_f1 (rows ! j) \<le> lb_f1 (rows ! i)))
       \<and> distinct (map lb_userId rows)
       \<and> length rows = min (nat (query_limit q)) (card (userId ` set (submissions d)))
       \<and> (\<forall>r\<in>set rows. \<exists>s\<in>set (submissions d).
            userId s = lb_userId r \<and> accuracy s = lb_accuracy r \<and> f1 s = lb_f1 r
            \<and> attemptNumber s = lb_attemptNumber r
            \<and> (\<forall>t\<in>set (submissions d). userId t = lb_userId r \<longrightarrow>
                  accuracy t < accuracy s \<or> (accuracy t = accuracy s \<and> f1 t \<le> f1 s)))
       \<and> (\<forall>r\<in>set rows. \<forall>t\<in>set (submissions d). userId t \<notin> lb_userId ` set rows \<longrightarrow>
            accuracy t < lb_accuracy r \<or> (accuracy t = lb_accuracy r \<and> f1 t \<le> lb_f1 r))"
proof -
  define n where "n = nat (query_limit q)"
  from assms obtain result where agg: "aggregate n (submissions d) result"
    and rows': "rows = with_rank result"
    by (auto simp: leaderboard_def n_def split: if_splits)
  from agg obtain ranked where res: "result = take n ranked"
    and sorted: "sorted_wrt (\<lambda>a b. group_key b \<le> group_key a) ranked"
    and dist: "distinct (map group_id ranked)"
    and ids: "set (map group_id ranked) = userId ` set (submissions d)"
    and best': "\<forall>e\<in>set ranked.
           \<exists>s\<in>set (submissions d). userId s = group_id e \<and> accuracy s = bestAccuracy e
             \<and> f1 s = bestF1 e \<and> attemptNumber s = group_attemptNumber e
             \<and> (\<forall>t\<in>set (submissions d). userId t = userId s \<longrightarrow> score_key t \<le> score_key s)"
    using aggregate_ranked by blast
  note best = best' [rule_format]
  define es where "es = take n ranked"
  have rows: "rows = with_rank es" by (simp add: rows' res es_def)
  have len: "length rows = length es" by (simp add: rows length_with_rank)
  have sorted_es: "sorted_wrt (\<lambda>a b. group_key b \<le> group_key a) es"
    unfolding es_def using sorted by (rule sorted_wrt_take)
  have distinct_es: "distinct (map group_id es)"
    unfolding es_def take_map [symmetric] using dist by (rule distinct_take)
  have es_sub: "set es \<subseteq> set ranked" unfolding es_def by (rule set_take_subset)
  have p1: "\<forall>i<length rows. rank (rows ! i) = i + 1"
    by (simp add: rows length_with_rank nth_with_rank)
  have p2: "\<forall>i j. i < j \<and> j < length rows \<longrightarrow>
            lb_accuracy (rows ! j) < lb_accuracy (rows ! i)
            \<or> (lb_accuracy (rows ! j) = lb_accuracy (rows ! i)
               \<and> lb_f1 (rows ! j) \<le> lb_f1 (rows ! i))"
  proof (intro allI impI)
    fix i j assume ij: "i < j \<and> j < length rows"
    then have "group_key (es ! j) \<le> group_key (es ! i)"
      using sorted_es len by (simp add: sorted_wrt_iff_nth_less)
    then show "lb_accuracy (rows ! j) < lb_accuracy (rows ! i)
            \<or> (lb_accuracy (rows ! j) = lb_accuracy (rows ! i)
               \<and> lb_f1 (rows ! j) \<le> lb_f1 (rows ! i))"
      using ij len by (auto simp: rows nth_with_rank group_key_def)
  qed
  have p3: "distinct (map lb_userId rows)"
    by (simp add: rows map_userId_with_rank distinct_es)
  have "length ranked = card (set (map group_id ranked))"
    using dist distinct_card [of "map group_id ranked"] by simp
  then have len_ranked: "length ranked = card (userId ` set (submissions d))"
    by (simp only: ids)
  have p4: "length rows = min (nat (query_limit q)) (card (userId ` set (submissions d)))"
    by (simp add: len es_def len_ranked n_def min.commute)
  have entry: "\<exists>e\<in>set es. lb_userId r = group_id e \<and> lb_accuracy r = bestAccuracy e
                 \<and> lb_f1 r = bestF1 e \<and> lb_attemptNumber r = group_attemptNumber e"
    if "r \<in> set rows" for r
  proof -
    from that obtain i where i: "i < length es" "r = rows ! i"
      unfolding len [symmetric] by (auto simp: in_set_conv_nth)
    then have "es ! i \<in> set es" by simp
    moreover have "lb_userId r = group_id (es ! i)" "lb_accuracy r = bestAccuracy (es ! i)"
      "lb_f1 r = bestF1 (es ! i)" "lb_attemptNumber r = group_attemptNumber (es ! i)"
      using i by (simp_all add: rows nth_with_rank)
    ultimately show ?thesis by blast
  qed
  have p5: "\<forall>r\<in>set rows. \<exists>s\<in>set (submissions d).
            userId s = lb_userId r \<and> accuracy s = lb_accuracy r \<and> f1 s = lb_f1 r
            \<and> attemptNumber s = lb_attemptNumber r
            \<and> (\<forall>t\<in>set (submissions d). userId t = lb_userId r \<longrightarrow>
                  accuracy t < accuracy s \<or> (accuracy t = accuracy s \<and> f1 t \<le> f1 s))"
  proof
    fix r assume "r \<in> set rows"
    from entry [OF this] obtain e where e: "e \<in> set es" "lb_userId r = group_id e"
      "lb_accuracy r = bestAccuracy e" "lb_f1 r = bestF1 e"
      "lb_attemptNumber r = group_attemptNumber e"
      by blast
    from e(1) es_sub have "e \<in> set ranked" by blast
    from best [OF this] obtain s where s: "s \<in> set (submissions d)"
      "userId s = group_id e" "accuracy s = bestAccuracy e" "f1 s = bestF1 e"
      "attemptNumber s = group_attemptNumber e"
      "\<forall>t\<in>set (submissions d). userId t = userId s \<longrightarrow> score_key t \<le> score_key s"
      by blast
    have "\<forall>t\<in>set (submissions d). userId t = lb_userId r \<longrightarrow>
                  accuracy t < accuracy s \<or> (accuracy t = accuracy s \<and> f1 t \<le> f1 s)"
      using s(6) unfolding e s(2) by (auto simp: score_key_def)
    then show "\<exists>s\<in>set (submissions d).
            userId s = lb_userId r \<and> accuracy s = lb_accuracy r \<and> f1 s = lb_f1 r
            \<and> attemptNumber s = lb_attemptNumber r
            \<and> (\<forall>t\<in>set (submissions d). userId t = lb_userId r \<longrightarrow>
                  accuracy t < accuracy s \<or> (accuracy t = accuracy s \<and> f1 t \<le> f1 s))"
      using s(1-5) e by (intro bexI [of _ s]) simp_all
  qed
  have p6: "\<forall>r\<in>set rows. \<forall>t\<in>set (submissions d). userId t \<notin> lb_userId ` set rows \<longrightarrow>
            accuracy t < lb_accuracy r \<or> (accuracy t = lb_accuracy r \<and> f1 t \<le> lb_f1 r)"
  proof (intro ballI impI)
    fix r t assume r: "r \<in> set rows" and t: "t \<in> set (submissions d)"
      and out: "userId t \<notin> lb_userId ` set rows"
    from entry [OF r] obtain e where e: "e \<in> set es" "lb_userId r = group_id e"
      "lb_accuracy r = bestAccuracy e" "lb_f1 r = bestF1 e"
      by blast
    from t have "userId t \<in> set (map group_id ranked)" unfolding ids by simp
    then obtain e' where e': "e' \<in> set ranked" "group_id e' = userId t" by auto
    have "group_id e' \<notin> set (map group_id es)"
      using out e'(2) by (simp add: rows map_userId_with_rank flip: set_map)
    then have "e' \<notin> set es" by auto
    then have "e' \<in> set (drop n ranked)"
      using e'(1) unfolding es_def by (metis Un_iff append_take_drop_id set_append)
    moreover have "sorted_wrt (\<lambda>a b. group_key b \<le> group_key a) (take n ranked @ drop n ranked)"
      using sorted by simp
    ultimately have le: "group_key e' \<le> group_key e"
      using e(1) unfolding es_def sorted_wrt_append by blast
    from best [OF e'(1)] obtain s' where s': "userId s' = group_id e'"
      "accuracy s' = bestAccuracy e'" "f1 s' = bestF1 e'"
      "\<forall>u\<in>set (submissions d). userId u = userId s' \<longrightarrow> score_key u \<le> score_key s'"
      by blast
    have "score_key t \<le> score_key s'" using s'(4) t s'(1) e'(2) by simp
    also have "score_key s' = group_key e'" by (simp add: score_key_def group_key_def s'(2,3))
    finally have "score_key t \<le> group_key e" using le by simp
    then show "accuracy t < lb_accuracy r \<or> (accuracy t = lb_accuracy r \<and> f1 t \<le> lb_f1 r)"
      by (auto simp: score_key_def group_key_def e(3,4))
  qed
  show ?thesis using p1 p2 p3 p4 p5 p6 by blast
qed

text \<open>Three participants and a limit of two entries.\<close>

theorem leaderboard_ranked_witness:
  "leaderboard (Some 2)
     \<lparr>answerCSV = None, defaultUploadLimit = None,
      submissions = [scored_submission ''A'' (1 / 2) (1 / 2) 1,
                     scored_submission ''B'' (9 / 10) (9 / 10) 1,
                     scored_submission ''C'' (7 / 10) (7 / 10) 1,
                     scored_submission ''C'' (3 / 10) (3 / 10) 2]\<rparr>
     (Inr [scored_entry 1 ''B'' (9 / 10) (9 / 10) 1, scored_entry 2 ''C'' (7 / 10) (7 / 10) 1])
   \<and> length [scored_entry 1 ''B'' (9 / 10) (9 / 10) 1, scored_entry 2 ''C'' (7 / 10) (7 / 10) 1]
       = min (nat (query_limit (Some 2)))
           (card (userId ` set (submissions
              \<lparr>answerCSV = None, defaultUploadLimit = None,
               submissions = [scored_submission ''A'' (1 / 2) (1 / 2) 1,
                              scored_submission ''B'' (9 / 10) (9 / 10) 1,
                              scored_submission ''C'' (7 / 10) (7 / 10) 1,
                              scored_submission ''C'' (3 / 10) (3 / 10) 2]\<rparr>)))"
proof -
  let ?a = "scored_submission ''A'' (1 / 2) (1 / 2) 1"
    and ?b = "scored_submission ''B'' (9 / 10) (9 / 10) 1"
    and ?c = "scored_submission ''C'' (7 / 10) (7 / 10) 1"
    and ?c2 = "scored_submission ''C'' (3 / 10) (3 / 10) 2"
  have q: "0 < query_limit (Some 2)" by (simp add: query_limit_def)
  have l: "leaderboard (Some 2)
     \<lparr>answerCSV = None, defaultUploadLimit = None, submissions = [?a, ?b, ?c, ?c2]\<rparr>
     (Inr [scored_entry 1 ''B'' (9 / 10) (9 / 10) 1, scored_entry 2 ''C'' (7 / 10) (7 / 10) 1])"
    by (rule leaderboard_answerI [OF q, of _ "[?b, ?c, ?a, ?c2]" "group_first [?b, ?c, ?a, ?c2]"])
      (simp_all add: sort_stage_def score_key_def group_key_def scored_submission_def
        scored_entry_def with_rank_def query_limit_def upt_rec)
  show ?thesis using leaderboard_ranked [OF l] l by simp
qed


text \<open>
  C2 as stated fails on the tie-break. The pipeline sorts by accuracy and f1 only and
  leaves the rest to the database. With the submissions \<open>A\<close>/1 (0.5), \<open>A\<close>/2 (0.9) and
  \<open>B\<close>/1 (0.9), the list with \<open>A\<close>, attempt 2, ranked before \<open>B\<close>, attempt 1, is a possible
  answer, as is the list in the other order; and with two equally scored submissions of
  \<open>A\<close>, the list that shows the second attempt as the best is a possible answer.
\<close>

theorem leaderboard_ignores_attempts:
  "leaderboard None
     \<lparr>answerCSV = None, defaultUploadLimit = None,
      submissions = [scored_submission ''A'' (1 / 2) (1 / 2) 1,
                     scored_submission ''A'' (9 / 10) (9 / 10) 2,
                     scored_submission ''B'' (9 / 10) (9 / 10) 1]\<rparr>
     (Inr [scored_entry 1 ''A'' (9 / 10) (9 / 10) 2, scored_entry 2 ''B'' (9 / 10) (9 / 10) 1])
   \<and> leaderboard None
     \<lparr>answerCSV = None, defaultUploadLimit = None,
      submissions = [scored_submission ''A'' (1 / 2) (1 / 2) 1,
                     scored_submission ''A'' (9 / 10) (9 / 10) 2,
                     scored_submission ''B'' (9 / 10) (9 / 10) 1]\<rparr>
     (Inr [scored_entry 1 ''B'' (9 / 10) (9 / 10) 1, scored_entry 2 ''A'' (9 / 10) (9 / 10) 2])
   \<and> leaderboard None
     \<lparr>answerCSV = None, defaultUploadLimit = None,
      submissions = [scored_submission ''A'' (9 / 10) (9 / 10) 1,
                     scored_submission ''A'' (9 / 10) (9 / 10) 2]\<rparr>
     (Inr [scored_entry 1 ''A'' (9 / 10) (9 / 10) 2])"
proof -
  let ?a1 = "scored_submission ''A'' (1 / 2) (1 / 2) 1"
    and ?a2 = "scored_submission ''A'' (9 / 10) (9 / 10) 2"
    and ?b1 = "scored_submission ''B'' (9 / 10) (9 / 10) 1"
    and ?a1' = "scored_submission ''A'' (9 / 10) (9 / 10) 1"
  have q: "0 < query_limit None" by (simp add: query_limit_def)
  have x: "leaderboard None
     \<lparr>answerCSV = None, defaultUploadLimit = None, submissions = [?a1, ?a2, ?b1]\<rparr>
     (Inr [scored_entry 1 ''A'' (9 / 10) (9 / 10) 2, scored_entry 2 ''B'' (9 / 10) (9 / 10) 1])"
    by (rule leaderboard_answerI [OF q, of _ "[?a2, ?b1, ?a1]" "group_first [?a2, ?b1, ?a1]"])
      (simp_all add: sort_stage_def score_key_def group_key_def scored_submission_def
        scored_entry_def with_rank_def query_limit_def upt_rec)
  have y: "leaderboard None
     \<lparr>answerCSV = None, defaultUploadLimit = None, submissions = [?a1, ?a2, ?b1]\<rparr>
     (Inr [scored_entry 1 ''B'' (9 / 10) (9 / 10) 1, scored_entry 2 ''A'' (9 / 10) (9 / 10) 2])"
    by (rule leaderboard_answerI [OF q, of _ "[?b1, ?a2, ?a1]" "group_first [?b1, ?a2, ?a1]"])
      (simp_all add: sort_stage_def score_key_def group_key_def scored_submission_def
        scored_entry_def with_rank_def query_limit_def upt_rec)
  have z: "leaderboard None
     \<lparr>answerCSV = None, defaultUploadLimit = None, submissions = [?a1', ?a2]\<rparr>
     (Inr [scored_entry 1 ''A'' (9 / 10) (9 / 10) 2])"
    by (rule leaderboard_answerI [OF q, of _ "[?a2, ?a1']" "group_first [?a2, ?a1']"])
      (simp_all add: sort_stage_def score_key_def group_key_def scored_submission_def
        scored_entry_def with_rank_def query_limit_def upt_rec)
  show ?thesis using x y z by (intro conjI)
qed

end
